theory Spec2Isabelle
  imports Main "HOL-Library.Word"
begin

unbundle bit_operations_syntax

section \<open>uioctl: userspace I/O manipulation utility\<close>

text \<open>
  A shallow embedding of \<^verbatim>\<open>uioctl.c\<close>. The program has two functions with behaviour,
  \<^verbatim>\<open>monitor\<close> and \<^verbatim>\<open>main\<close>. Both are modelled as functions from the answers of the
  operating system (the \<open>world\<close>) to the list of system calls and outputs the program
  issues, in program order, together with the way the process ends.

  C's \<^verbatim>\<open>int\<close> is a \<open>32 word\<close>, read as signed with \<open>sint\<close>; arithmetic wraps, which
  is what the usual compilers make of an overflow that C leaves undefined.
  A \<^verbatim>\<open>char\<close> is an \<open>8 word\<close>; whether plain \<^verbatim>\<open>char\<close> is signed is a property of
  the platform and is a field of the world. Return values of system calls, which the
  program only compares, are of type \<open>int\<close>.

  Library calls are not modelled beyond their results: \<^verbatim>\<open>getopt\<close> and \<^verbatim>\<open>strtoul\<close> have
  run when the model starts, and the texts written by \<^verbatim>\<open>printf\<close> are kept as the call's
  arguments (messages to \<^verbatim>\<open>stderr\<close> without their final newline).
\<close>

subsection \<open>Data\<close>

type_synonym byte = "8 word"
type_synonym cint = "32 word"

text \<open>\<^verbatim>\<open>enum mode_type\<close>.\<close>

datatype mode_type = MODE_READ | MODE_WRITE | MODE_LIST | MODE_MONITOR

definition DEFAULT_WIDTH :: cint where
  "DEFAULT_WIDTH = 4"

definition EXIT_SUCCESS :: int where
  "EXIT_SUCCESS = 0"

definition EXIT_FAILURE :: int where
  "EXIT_FAILURE = 1"

text \<open>
  What the device file answers in one pass through the body of the monitor loop: the
  return value of \<^verbatim>\<open>pwrite\<close>, the return value of \<^verbatim>\<open>pread\<close> with the four bytes it left
  in \<^verbatim>\<open>buf\<close>, and the clock read by \<^verbatim>\<open>ftime\<close>.
\<close>

record cycle =
  wr_ret :: int
  rd_ret :: int
  rd_buf :: "byte \<times> byte \<times> byte \<times> byte"
  tp_time :: int
  tp_millitm :: nat

text \<open>
  The answers of the operating system to one run of the program. \<open>mmap_ret\<close> is \<open>None\<close>
  when \<^verbatim>\<open>mmap\<close> returns \<^verbatim>\<open>MAP_FAILED\<close>, and otherwise the number of bytes that can be
  accessed from the returned pointer on (the kernel maps whole pages, so this is at least
  the length asked for). \<open>mem\<close> is the content of the mapped device memory by byte offset.

  The program never compares an address with the mapping, so it can reach through
  \<^verbatim>\<open>ptr + addr\<close> for a word that is not within the mapped bytes (any word at all when
  \<^verbatim>\<open>ptr\<close> is \<^verbatim>\<open>MAP_FAILED\<close>). What it finds there is a matter of the address space of the
  process and is an answer of the world too: \<open>stray_load addr\<close> is \<open>None\<close> when a load there
  faults and otherwise the word that happens to be there; \<open>stray_store addr\<close> tells whether
  a store there goes through, in which case it is taken to land in memory that the rest of
  the run does not use.
\<close>

record world =
  char_signed :: bool
  open_ret :: int
  mmap_ret :: "nat option"
  mem :: "nat \<Rightarrow> byte"
  stray_load :: "cint \<Rightarrow> cint option"
  stray_store :: "cint \<Rightarrow> bool"
  dev :: "nat \<Rightarrow> cycle"

text \<open>
  The calls and outputs of the program, each with its arguments.
  \<^item> \<open>Usage st\<close> is the call \<^verbatim>\<open>usage(st)\<close> up to its \<^verbatim>\<open>exit\<close>, \<open>Perror\<close> the call
    \<^verbatim>\<open>perror("uioctl")\<close>.
  \<^item> \<open>Open path sync\<close> is \<^verbatim>\<open>open(path, O_RDWR)\<close>, with \<^verbatim>\<open>O_SYNC\<close> added when \<open>sync\<close> holds.
  \<^item> \<open>Pwrite fd bytes n off r\<close> and \<open>Pread fd n off r\<close> are \<^verbatim>\<open>pwrite\<close> and \<^verbatim>\<open>pread\<close> on
    \<open>fd\<close> of \<open>n\<close> bytes at offset \<open>off\<close>, which returned \<open>r\<close>.
  \<^item> \<open>Print_interrupt t ms c\<close> is \<^verbatim>\<open>printf("[%ld.%03d] interrupt: %d\n", t, ms, c)\<close>.
  \<^item> \<open>Mmap n fd\<close> is \<^verbatim>\<open>mmap(NULL, n, PROT_READ|PROT_WRITE, MAP_SHARED, fd, 0)\<close> and
    \<open>Munmap n\<close> is \<^verbatim>\<open>munmap(ptr, n)\<close>.
  \<^item> \<open>Load a\<close> and \<open>Store a v\<close> are the accesses to the \<^verbatim>\<open>unsigned\<close> at \<^verbatim>\<open>ptr + a\<close>.
  \<^item> \<open>Print_reg a v\<close> is \<^verbatim>\<open>printf("0x%08x\t%08x\n", a, v)\<close>.
\<close>

datatype event =
    Usage int
  | Perror
  | Stderr string
  | Stdout string
  | Open string bool
  | Pwrite int "byte list" nat nat int
  | Pread int nat nat int
  | Ftime
  | Print_interrupt int nat int
  | Mmap cint int
  | Load cint
  | Store cint cint
  | Print_reg cint cint
  | Munmap cint
  | Close int

text \<open>
  How the process ends: \<^verbatim>\<open>exit\<close> or \<^verbatim>\<open>return\<close> from \<^verbatim>\<open>main\<close> with a status, death by
  a memory fault, or still inside the monitor loop when the observation stops.
\<close>

datatype outcome = Exit int | Fault | Running

type_synonym run = "event list \<times> outcome"

subsection \<open>The interrupt monitor\<close>

text \<open>\<^verbatim>\<open>char startval[] = {0,0,0,1};\<close>\<close>

definition startval :: "byte list" where
  "startval = [0, 0, 0, 1]"

text \<open>
  The integer promotion of a \<^verbatim>\<open>char\<close> operand: sign extension where plain \<^verbatim>\<open>char\<close> is
  signed, zero extension where it is unsigned.
\<close>

definition promote :: "bool \<Rightarrow> byte \<Rightarrow> cint" where
  "promote sg b = (if sg then scast b else ucast b)"

text \<open>
  The last argument of the \<^verbatim>\<open>printf\<close> in the loop,
  \<^verbatim>\<open>buf[3] * 16777216 + buf[2] * 65536 + buf[1] * 256 + buf[0]\<close>, an \<^verbatim>\<open>int\<close> expression.
\<close>

definition counter_expr :: "bool \<Rightarrow> byte \<times> byte \<times> byte \<times> byte \<Rightarrow> cint" where
  "counter_expr sg buf =
     (case buf of (b0, b1, b2, b3) \<Rightarrow>
        promote sg b3 * 16777216 + promote sg b2 * 65536 + promote sg b1 * 256 + promote sg b0)"

text \<open>What \<^verbatim>\<open>%d\<close> shows of that \<^verbatim>\<open>int\<close>.\<close>

definition reported_counter :: "bool \<Rightarrow> byte \<times> byte \<times> byte \<times> byte \<Rightarrow> int" where
  "reported_counter sg buf = sint (counter_expr sg buf)"

text \<open>
  The \<^verbatim>\<open>do { ... } while (forever)\<close> loop of \<^verbatim>\<open>monitor\<close> with the two statements after it.
  The loop need not end, so the first argument bounds the number of passes that are
  observed: when it is used up the run so far is returned with the outcome \<open>Running\<close>.
  \<open>i\<close> counts the passes made so far and selects the device's answers.
\<close>

fun monitor_loop :: "nat \<Rightarrow> world \<Rightarrow> nat \<Rightarrow> int \<Rightarrow> cint \<Rightarrow> run" where
  "monitor_loop 0 w i fd forever = ([], Running)"
| "monitor_loop (Suc k) w i fd forever =
     (let c = dev w i in
      if wr_ret c \<noteq> 4 then
        ([Pwrite fd startval 4 0 (wr_ret c), Perror, Stderr ''Problem clearing device file''],
         Exit EXIT_FAILURE)
      else if rd_ret c \<noteq> 4 then
        ([Pwrite fd startval 4 0 (wr_ret c), Pread fd 4 0 (rd_ret c), Ftime, Perror,
          Stderr ''Problem reading from device file''],
         Exit EXIT_FAILURE)
      else
        (let body = [Pwrite fd startval 4 0 (wr_ret c), Pread fd 4 0 (rd_ret c), Ftime,
                     Print_interrupt (tp_time c) (tp_millitm c)
                       (reported_counter (char_signed w) (rd_buf c))]
         in if forever \<noteq> 0 then
              (case monitor_loop k w (Suc i) fd forever of (t, r) \<Rightarrow> (body @ t, r))
            else (body @ [Close fd], Exit EXIT_SUCCESS)))"

text \<open>\<^verbatim>\<open>static void monitor(char *fpath, int forever)\<close>. It never returns to its caller.\<close>

definition monitor :: "nat \<Rightarrow> world \<Rightarrow> string \<Rightarrow> cint \<Rightarrow> run" where
  "monitor fuel w fpath forever =
     (let fd = open_ret w in
      if fd < 1 then
        ([Stdout (''Waiting for interrupts on '' @ fpath), Open fpath False, Perror,
          Stderr (''Couldn't open UIO device file: '' @ fpath)],
         Exit EXIT_FAILURE)
      else
        (case monitor_loop fuel w 0 fd forever of
           (t, r) \<Rightarrow> (Stdout (''Waiting for interrupts on '' @ fpath) # Open fpath False # t, r)))"

subsection \<open>Register access through the mapping\<close>

text \<open>
  A 32-bit access through \<^verbatim>\<open>ptr + addr\<close>, where \<^verbatim>\<open>addr\<close> is an \<^verbatim>\<open>int\<close>: the four bytes lie
  \<open>sint addr\<close> bytes from the mapped pointer. \<open>in_map\<close> tells whether \<^verbatim>\<open>mmap\<close> succeeded and
  all four bytes are among the mapped bytes: then the access reaches the device memory.
  It is a notion of the model; the program makes no such test.
\<close>

definition in_map :: "nat option \<Rightarrow> cint \<Rightarrow> bool" where
  "in_map mp addr =
     (case mp of None \<Rightarrow> False
      | Some ext \<Rightarrow> 0 \<le> sint addr \<and> nat (sint addr) + 4 \<le> ext)"

text \<open>Loads and stores of an \<^verbatim>\<open>unsigned\<close>, least significant byte at the lowest address.\<close>

definition load32 :: "(nat \<Rightarrow> byte) \<Rightarrow> nat \<Rightarrow> cint" where
  "load32 m a =
     ucast (m a) OR push_bit 8 (ucast (m (a + 1))) OR
     push_bit 16 (ucast (m (a + 2))) OR push_bit 24 (ucast (m (a + 3)))"

definition store32 :: "(nat \<Rightarrow> byte) \<Rightarrow> nat \<Rightarrow> cint \<Rightarrow> (nat \<Rightarrow> byte)" where
  "store32 m a v =
     m(a := ucast v, a + 1 := ucast (drop_bit 8 v),
       a + 2 := ucast (drop_bit 16 v), a + 3 := ucast (drop_bit 24 v))"

text \<open>
  What the load \<^verbatim>\<open>*((unsigned *) (ptr + addr))\<close> yields, \<open>None\<close> for a memory fault: the word of
  the device memory when it lies within the mapped bytes, and what the address space of the
  process holds at that place when it does not.
\<close>

definition load_word :: "nat option \<Rightarrow> (nat \<Rightarrow> byte) \<Rightarrow> (cint \<Rightarrow> cint option) \<Rightarrow> cint \<Rightarrow> cint option" where
  "load_word mp m sl addr =
     (if in_map mp addr then Some (load32 m (nat (sint addr))) else sl addr)"

text \<open>
  The read loop of \<^verbatim>\<open>main\<close>:
  \<^verbatim>\<open>for (; count > 0; count--) { value = *((unsigned *) (ptr + addr));
       printf("0x%08x\t%08x\n", addr, value); addr += width; }\<close>
  The result is the list of events and whether a load faulted.
\<close>

function read_words :: "nat option \<Rightarrow> (nat \<Rightarrow> byte) \<Rightarrow> (cint \<Rightarrow> cint option) \<Rightarrow> cint \<Rightarrow> cint \<Rightarrow> cint \<Rightarrow> event list \<times> bool" where
  "read_words mp m sl count addr width =
     (if 0 <s count then
        (case load_word mp m sl addr of
           None \<Rightarrow> ([Load addr], True)
         | Some x \<Rightarrow>
             (case read_words mp m sl (count - 1) (addr + width) width of
                (t, faulted) \<Rightarrow> (Load addr # Print_reg addr x # t, faulted)))
      else ([], False))"
  by pat_completeness auto
termination
proof (relation "measure (\<lambda>(mp, m, sl, count, addr, width). nat (sint count))")
  show "wf (measure (\<lambda>(mp, m, sl, count, addr, width). nat (sint count)))"
    by simp
next
  fix mp :: "nat option" and m :: "nat \<Rightarrow> byte" and sl :: "cint \<Rightarrow> cint option"
    and count addr width :: cint
  assume "0 <s count"
  then have pos: "0 < sint count"
    by (simp add: word_sless_alt)
  have "sint count < 2 ^ 31"
    using sint_lt [of count] by simp
  with pos have "signed_take_bit 31 (sint count - 1) = sint count - 1"
    by (intro signed_take_bit_int_eq_self) simp_all
  then have "sint (count - 1) = sint count - 1"
    by (simp add: sint_word_diff)
  with pos show "((mp, m, sl, count - 1, addr + width, width), (mp, m, sl, count, addr, width))
      \<in> measure (\<lambda>(mp, m, sl, count, addr, width). nat (sint count))"
    by simp
qed

declare read_words.simps [simp del]

text \<open>
  The store of write mode, \<^verbatim>\<open>*((unsigned *)(ptr + addr)) = value;\<close>: the events, whether the
  store faulted, and the device memory after it.
\<close>

definition write_word :: "nat option \<Rightarrow> (nat \<Rightarrow> byte) \<Rightarrow> (cint \<Rightarrow> bool) \<Rightarrow> cint \<Rightarrow> cint \<Rightarrow> (event list \<times> bool) \<times> (nat \<Rightarrow> byte)" where
  "write_word mp m ss addr v =
     (if in_map mp addr then (([Store addr v], False), store32 m (nat (sint addr)) v)
      else (([Store addr v], \<not> ss addr), m))"

subsection \<open>The front end\<close>

text \<open>
  One option as \<^verbatim>\<open>getopt\<close> hands it to the loop in \<^verbatim>\<open>main\<close>. An option with an argument
  carries what \<^verbatim>\<open>strtoul(optarg, NULL, 0)\<close> makes of it: the \<^verbatim>\<open>unsigned long\<close> returned and
  whether \<^verbatim>\<open>errno\<close> is set afterwards. \<open>Opt_other\<close> is any answer of \<^verbatim>\<open>getopt\<close> that reaches
  the \<^verbatim>\<open>default\<close> label.
\<close>

datatype opt =
    Opt_h | Opt_l | Opt_m | Opt_x
  | Opt_r nat bool | Opt_n nat bool | Opt_w nat bool
  | Opt_other

text \<open>
  An element of \<^verbatim>\<open>argv\<close> from \<^verbatim>\<open>optind\<close> on: its text, and what \<^verbatim>\<open>strtoul\<close> makes of it.
\<close>

record arg =
  str :: string
  ul :: nat
  erange :: bool

text \<open>The assignment of an \<^verbatim>\<open>unsigned long\<close> to an \<^verbatim>\<open>int\<close> keeps the low 32 bits.\<close>

definition to_int :: "nat \<Rightarrow> cint" where
  "to_int v = word_of_nat v"

text \<open>The local variables of \<^verbatim>\<open>main\<close> that the option loop sets, with their initial values.\<close>

record locals =
  mode :: mode_type
  region :: cint
  count :: cint
  width :: cint
  forever :: cint

definition init_locals :: locals where
  "init_locals =
     \<lparr>mode = MODE_READ, region = 0, count = 1, width = DEFAULT_WIDTH, forever = 1\<rparr>"

text \<open>
  The \<^verbatim>\<open>while((c = getopt(...)) != -1)\<close> loop. \<open>Inl\<close> is a run that ended inside the loop,
  \<open>Inr\<close> the local variables after the last option.
\<close>

fun getopt_loop :: "opt list \<Rightarrow> locals \<Rightarrow> run + locals" where
  "getopt_loop [] s = Inr s"
| "getopt_loop (Opt_h # os) s = Inl ([Usage EXIT_SUCCESS], Exit EXIT_SUCCESS)"
| "getopt_loop (Opt_l # os) s =
     Inl ([Stderr ''listing not yet implemented''], Exit EXIT_FAILURE)"
| "getopt_loop (Opt_m # os) s = getopt_loop os (s\<lparr>mode := MODE_MONITOR\<rparr>)"
| "getopt_loop (Opt_x # os) s = getopt_loop os (s\<lparr>mode := MODE_MONITOR, forever := 0\<rparr>)"
| "getopt_loop (Opt_r v e # os) s =
     (if e then Inl ([Perror], Exit EXIT_FAILURE)
      else if to_int v \<noteq> 0 then
        Inl ([Stderr ''region != 0 not yet implemented''], Exit EXIT_FAILURE)
      else getopt_loop os (s\<lparr>region := to_int v\<rparr>))"
| "getopt_loop (Opt_n v e # os) s =
     (if e then Inl ([Perror], Exit EXIT_FAILURE)
      else getopt_loop os (s\<lparr>count := to_int v\<rparr>))"
| "getopt_loop (Opt_w v e # os) s =
     (if e then Inl ([Perror], Exit EXIT_FAILURE)
      else if to_int v \<noteq> 4 then
        Inl ([Stderr ''width != 4 not yet implemented''], Exit EXIT_FAILURE)
      else getopt_loop os (s\<lparr>width := to_int v\<rparr>))"
| "getopt_loop (Opt_other # os) s =
     Inl ([Stderr ''Unexpected argument; try -h''], Exit EXIT_FAILURE)"

text \<open>
  The rest of \<^verbatim>\<open>main\<close> from \<^verbatim>\<open>map_size = count * width;\<close> on: open, map, read or write,
  clean up. \<^verbatim>\<open>mmap\<close>'s return value is used as it comes.
\<close>

definition map_and_access :: "world \<Rightarrow> locals \<Rightarrow> string \<Rightarrow> cint \<Rightarrow> cint \<Rightarrow> run" where
  "map_and_access w s fpath addr val =
     (let map_size = count s * width s; fd = open_ret w in
      if fd < 1 then
        ([Open fpath True, Perror, Stderr (''Couldn't open UIO device file: '' @ fpath)],
         Exit EXIT_FAILURE)
      else
        (case (if mode s = MODE_READ
               then read_words (mmap_ret w) (mem w) (stray_load w) (count s) addr (width s)
               else fst (write_word (mmap_ret w) (mem w) (stray_store w) addr val)) of
           (t, faulted) \<Rightarrow>
             if faulted then (Open fpath True # Mmap map_size fd # t, Fault)
             else (Open fpath True # Mmap map_size fd # t @ [Munmap map_size, Close fd],
                   Exit EXIT_SUCCESS)))"

text \<open>
  \<^verbatim>\<open>int main(int argc, char *argv[])\<close>, given the options in the order \<^verbatim>\<open>getopt\<close> yields
  them and the remaining arguments. The option loop leaves \<^verbatim>\<open>mode\<close> at \<^verbatim>\<open>MODE_READ\<close> or
  \<^verbatim>\<open>MODE_MONITOR\<close>, and \<^verbatim>\<open>monitor\<close> does not return, so the second test of \<^verbatim>\<open>mode\<close> is
  the else branch of the first.
\<close>

definition main :: "nat \<Rightarrow> world \<Rightarrow> opt list \<Rightarrow> arg list \<Rightarrow> run" where
  "main fuel w opts args =
     (case getopt_loop opts init_locals of
        Inl r \<Rightarrow> r
      | Inr s \<Rightarrow>
          if mode s = MODE_MONITOR then
            (case args of
               [p] \<Rightarrow> monitor fuel w (str p) (forever s)
             | _ \<Rightarrow> ([Stderr ''Wrong number of arguments; try -h''], Exit EXIT_FAILURE))
          else
            (case args of
               [p, a] \<Rightarrow>
                 if erange a then ([Perror], Exit EXIT_FAILURE)
                 else map_and_access w s (str p) (to_int (ul a)) 0
             | [p, a, v] \<Rightarrow>
                 if erange a \<or> erange v then ([Perror], Exit EXIT_FAILURE)
                 else map_and_access w (s\<lparr>mode := MODE_WRITE\<rparr>) (str p)
                        (to_int (ul a)) (to_int (ul v))
             | _ \<Rightarrow> ([Stderr ''Wrong number of arguments; try -h''], Exit EXIT_FAILURE)))"

subsection \<open>Observations on a run\<close>

text \<open>The transfers on the device file, and the accesses through the mapping.\<close>

fun is_pwrite :: "event \<Rightarrow> bool" where
  "is_pwrite (Pwrite fd b n off r) = True"
| "is_pwrite e = False"

fun is_pread :: "event \<Rightarrow> bool" where
  "is_pread (Pread fd n off r) = True"
| "is_pread e = False"

fun is_interrupt_line :: "event \<Rightarrow> bool" where
  "is_interrupt_line (Print_interrupt t ms c) = True"
| "is_interrupt_line e = False"

definition is_protocol :: "event \<Rightarrow> bool" where
  "is_protocol e = (is_pwrite e \<or> is_pread e \<or> is_interrupt_line e)"

fun is_access :: "event \<Rightarrow> bool" where
  "is_access (Load a) = True"
| "is_access (Store a v) = True"
| "is_access e = False"

fun is_reg_line :: "event \<Rightarrow> bool" where
  "is_reg_line (Print_reg a v) = True"
| "is_reg_line e = False"

text \<open>A report of an error: \<^verbatim>\<open>perror\<close>, or a message on \<^verbatim>\<open>stderr\<close>.\<close>

fun is_complaint :: "event \<Rightarrow> bool" where
  "is_complaint Perror = True"
| "is_complaint (Stderr msg) = True"
| "is_complaint e = False"

text \<open>Any call that opens, maps, reads or writes the device.\<close>

fun touches_device :: "event \<Rightarrow> bool" where
  "touches_device (Open p sy) = True"
| "touches_device (Mmap n fd) = True"
| "touches_device (Load a) = True"
| "touches_device (Store a v) = True"
| "touches_device (Pwrite fd b n off r) = True"
| "touches_device (Pread fd n off r) = True"
| "touches_device e = False"

text \<open>
  An option that asks for a word width other than 4 or a region other than 0, the number
  being the \<^verbatim>\<open>int\<close> the program compares.
\<close>

fun unsupported :: "opt \<Rightarrow> bool" where
  "unsupported (Opt_w v e) = (to_int v \<noteq> 4)"
| "unsupported (Opt_r v e) = (to_int v \<noteq> 0)"
| "unsupported x = False"

text \<open>
  An option after which the option loop goes on to the next one: \<^verbatim>\<open>-m\<close>, \<^verbatim>\<open>-x\<close>, and a
  \<^verbatim>\<open>-r\<close>, \<^verbatim>\<open>-n\<close> or \<^verbatim>\<open>-w\<close> whose number \<^verbatim>\<open>strtoul\<close> converts without error and which
  is the region 0 or the width 4. Every other option ends the run where it is handled.
\<close>

fun passes :: "opt \<Rightarrow> bool" where
  "passes Opt_m = True"
| "passes Opt_x = True"
| "passes (Opt_r v e) = (\<not> e \<and> to_int v = 0)"
| "passes (Opt_n v e) = (\<not> e)"
| "passes (Opt_w v e) = (\<not> e \<and> to_int v = 4)"
| "passes x = False"

text \<open>The first option that ends the run in the option loop, if there is one.\<close>

definition first_stop :: "opt list \<Rightarrow> opt option" where
  "first_stop opts = find (\<lambda>x. \<not> passes x) opts"

text \<open>
  The protocol of the specification as a state machine over the transfers and reports of a
  run on descriptor \<open>fd\<close>. In \<open>Arming\<close> the next event is the \<^verbatim>\<open>pwrite\<close> of the bytes 0, 0, 0, 1,
  of length 4 at offset 0; if it returned 4 the machine is \<open>Waiting\<close>, otherwise nothing
  follows. In \<open>Waiting\<close> the next event is the \<^verbatim>\<open>pread\<close> of length 4 at offset 0; if it
  returned 4 the machine is \<open>Reporting\<close>, otherwise nothing follows. In \<open>Reporting\<close> the next
  event is the interrupt line, and the machine is \<open>Arming\<close> again. An observation can stop
  only in \<open>Arming\<close>: a write without its read, or a read without its report, is refused.
\<close>

datatype phase = Arming | Waiting | Reporting

fun follows :: "int \<Rightarrow> phase \<Rightarrow> event list \<Rightarrow> bool" where
  "follows fd Arming [] = True"
| "follows fd Arming (Pwrite f b n off r # es) =
     (f = fd \<and> b = [0, 0, 0, 1] \<and> n = 4 \<and> off = 0 \<and>
      (if r = 4 then follows fd Waiting es else es = []))"
| "follows fd Waiting (Pread f n off r # es) =
     (f = fd \<and> n = 4 \<and> off = 0 \<and> (if r = 4 then follows fd Reporting es else es = []))"
| "follows fd Reporting (Print_interrupt t ms c # es) = follows fd Arming es"
| "follows fd ph es = False"

text \<open>The events of pass \<open>j\<close> of the monitor loop when both of its transfers are complete.\<close>

definition complete_pass :: "world \<Rightarrow> int \<Rightarrow> nat \<Rightarrow> event list" where
  "complete_pass w fd j =
     [Pwrite fd [0, 0, 0, 1] 4 0 4, Pread fd 4 0 4, Ftime,
      Print_interrupt (tp_time (dev w j)) (tp_millitm (dev w j))
        (reported_counter (char_signed w) (rd_buf (dev w j)))]"

text \<open>The (address, value) pairs of the lines of read mode, in the order printed.\<close>

fun reg_lines :: "event list \<Rightarrow> (cint \<times> cint) list" where
  "reg_lines [] = []"
| "reg_lines (Print_reg a v # es) = (a, v) # reg_lines es"
| "reg_lines (e # es) = reg_lines es"

text \<open>
  What \<^verbatim>\<open>printf\<close> writes for the conversion \<^verbatim>\<open>%08x\<close> of a 32-bit argument, and for the whole
  format \<^verbatim>\<open>"0x%08x\t%08x\n"\<close> of the read loop.
\<close>

definition hex_digit :: "nat \<Rightarrow> char" where
  "hex_digit d = ''0123456789abcdef'' ! d"

definition fmt_08x :: "cint \<Rightarrow> string" where
  "fmt_08x x = map (\<lambda>i. hex_digit (unat (drop_bit (4 * i) x AND 15))) [7, 6, 5, 4, 3, 2, 1, 0]"

definition reg_line_text :: "cint \<Rightarrow> cint \<Rightarrow> string" where
  "reg_line_text a v = ''0x'' @ fmt_08x a @ [CHR 0x09] @ fmt_08x v @ [CHR 0x0A]"

text \<open>The number that a string of lower-case hexadecimal digits denotes.\<close>

definition digit_value :: "char \<Rightarrow> nat" where
  "digit_value c = (if 97 \<le> (of_char c :: nat) then of_char c - 87 else of_char c - 48)"

definition hex_value :: "string \<Rightarrow> nat" where
  "hex_value ds = foldl (\<lambda>acc c. 16 * acc + digit_value c) 0 ds"

subsection \<open>A simulated device\<close>

text \<open>
  A device file that answers every acknowledge with 4, and every wait with 4 and the same
  four bytes; and a host on which it opens as descriptor 3 and maps as one page of zeros,
  with nothing that can be accessed around the page or around \<^verbatim>\<open>MAP_FAILED\<close>.
\<close>

definition sim_cycle :: "byte \<times> byte \<times> byte \<times> byte \<Rightarrow> cycle" where
  "sim_cycle buf = \<lparr>wr_ret = 4, rd_ret = 4, rd_buf = buf, tp_time = 0, tp_millitm = 0\<rparr>"

definition sim_world :: "bool \<Rightarrow> byte \<times> byte \<times> byte \<times> byte \<Rightarrow> world" where
  "sim_world sg buf =
     \<lparr>char_signed = sg, open_ret = 3, mmap_ret = Some 4096, mem = (\<lambda>a. 0),
      stray_load = (\<lambda>a. None), stray_store = (\<lambda>a. False),
      dev = (\<lambda>i. sim_cycle buf)\<rparr>"

text \<open>
  A host on which the mapping fails and the image of the program begins at 0x400000, so
  that \<^verbatim>\<open>MAP_FAILED + 0x400001\<close> is the first word of the ELF header, which can be read and
  not written.
\<close>

definition elf_world :: world where
  "elf_world =
     \<lparr>char_signed = True, open_ret = 3, mmap_ret = None, mem = (\<lambda>a. 0),
      stray_load = (\<lambda>a. if a = 0x400001 then Some 0x464c457f else None),
      stray_store = (\<lambda>a. False), dev = (\<lambda>i. sim_cycle (0, 0, 0, 0))\<rparr>"

text \<open>A device file whose third wait returns after two bytes only.\<close>

definition short_read_dev :: "nat \<Rightarrow> cycle" where
  "short_read_dev i = (if i < 2 then sim_cycle (1, 0, 0, 0) else (sim_cycle (0, 0, 0, 0))\<lparr>rd_ret := 2\<rparr>)"

definition uio0 :: arg where
  "uio0 = \<lparr>str = ''/dev/uio0'', ul = 0, erange = False\<rparr>"

definition num_arg :: "string \<Rightarrow> nat \<Rightarrow> arg" where
  "num_arg s v = \<lparr>str = s, ul = v, erange = False\<rparr>"

section \<open>Properties\<close>

subsection \<open>Arithmetic of the interrupt counter\<close>

lemma sint_small_byte: "uint (b::byte) < 128 \<Longrightarrow> sint b = uint b"
proof -
  assume small: "uint b < 128"
  have "- 128 \<le> uint b"
    using uint_ge_0 [of b] by linarith
  then have "- (2 ^ 7) \<le> uint b"
    by simp
  moreover have "uint b < 2 ^ 7"
    using small by simp
  ultimately have "signed_take_bit 7 (uint b) = uint b"
    by (rule signed_take_bit_int_eq_self)
  then show ?thesis
    by (simp add: sint_uint)
qed

lemma promote_unsigned: "promote False b = word_of_int (uint b)"
  by (simp only: promote_def if_False ucast_eq)

lemma promote_small: "uint b < 128 \<Longrightarrow> promote sg b = word_of_int (uint b)"
  by (cases sg) (simp_all only: promote_def if_True if_False ucast_eq scast_eq sint_small_byte)

lemma sint_word_of_int_small:
  "0 \<le> x \<Longrightarrow> x < 2147483648 \<Longrightarrow> sint (word_of_int x :: cint) = x"
  by (simp add: sint_sbintrunc' signed_take_bit_int_eq_self)

lemma uint_byte_bound: "uint (b::byte) < 256"
  using uint_bounded [of b] by simp

lemma counter_sum:
  assumes "p3 = word_of_int x3" "p2 = word_of_int x2" "p1 = word_of_int x1" "p0 = word_of_int x0"
  shows "(p3 * 16777216 + p2 * 65536 + p1 * 256 + p0 :: cint)
         = word_of_int (x3 * 16777216 + x2 * 65536 + x1 * 256 + x0)"
  using assms by simp

lemma reported_counter_little_endian:
  assumes "uint b3 < 128"
    and "sg \<longrightarrow> uint b0 < 128 \<and> uint b1 < 128 \<and> uint b2 < 128"
  shows "reported_counter sg (b0, b1, b2, b3)
         = uint b3 * 16777216 + uint b2 * 65536 + uint b1 * 256 + uint b0"
proof -
  have p: "promote sg b0 = word_of_int (uint b0)" "promote sg b1 = word_of_int (uint b1)"
    "promote sg b2 = word_of_int (uint b2)" "promote sg b3 = word_of_int (uint b3)"
    using assms by (cases sg; simp add: promote_small promote_unsigned)+
  have e: "counter_expr sg (b0, b1, b2, b3)
        = word_of_int (uint b3 * 16777216 + uint b2 * 65536 + uint b1 * 256 + uint b0)"
    unfolding counter_expr_def prod.case by (rule counter_sum) (rule p)+
  have "0 \<le> uint b3 * 16777216 + uint b2 * 65536 + uint b1 * 256 + uint b0"
    by simp
  moreover have "uint b3 * 16777216 + uint b2 * 65536 + uint b1 * 256 + uint b0 < 2147483648"
    using assms(1) uint_byte_bound [of b0] uint_byte_bound [of b1] uint_byte_bound [of b2]
    by linarith
  ultimately show ?thesis
    unfolding reported_counter_def e by (rule sint_word_of_int_small)
qed

text \<open>
  C2, as amended. A pass of the monitor loop whose transfers are complete reports the
  little-endian value \<open>byte[3]*16777216 + byte[2]*65536 + byte[1]*256 + byte[0]\<close> of the
  four bytes read, provided \<open>byte[3]\<close> is at most 127 and, where plain \<^verbatim>\<open>char\<close> is signed,
  so are the other three bytes. The counter is an \<^verbatim>\<open>int\<close> printed with \<^verbatim>\<open>%d\<close>, so a value
  from \<open>2^31\<close> on cannot be reported as such.
\<close>

theorem monitor_reports_counter:
  assumes "wr_ret (dev w i) = 4" and "rd_ret (dev w i) = 4"
    and "rd_buf (dev w i) = (b0, b1, b2, b3)"
    and "uint b3 < 128"
    and "char_signed w \<longrightarrow> uint b0 < 128 \<and> uint b1 < 128 \<and> uint b2 < 128"
  shows "take 4 (fst (monitor_loop (Suc k) w i fd fv)) =
           [Pwrite fd [0, 0, 0, 1] 4 0 4, Pread fd 4 0 4, Ftime,
            Print_interrupt (tp_time (dev w i)) (tp_millitm (dev w i))
              (uint b3 * 16777216 + uint b2 * 65536 + uint b1 * 256 + uint b0)]"
  using assms reported_counter_little_endian [of b3 "char_signed w" b0 b1 b2]
  by (simp add: Let_def startval_def split: prod.split)

text \<open>
  The framing test of the specification: the simulated device answers with the bytes
  2, 0, 0, 0 and the monitor reports 2.
\<close>

theorem monitor_reports_counter_witness:
  "take 4 (fst (monitor_loop (Suc 0) (sim_world True (2, 0, 0, 0)) 0 3 0)) =
     [Pwrite 3 [0, 0, 0, 1] 4 0 4, Pread 3 4 0 4, Ftime, Print_interrupt 0 0 2]"
  using monitor_reports_counter [of "sim_world True (2, 0, 0, 0)" 0 2 0 0 0 0 3 0]
  by (simp add: sim_world_def sim_cycle_def)

text \<open>
  C2 as stated fails for a fourth byte of 128: the device answers 0, 0, 0, 128, whose
  little-endian unsigned value is 2147483648, and the monitor reports -2147483648.
\<close>

theorem counter_high_byte_counterexample:
  "fst (monitor_loop (Suc 0) (sim_world True (0, 0, 0, 128)) 0 3 0) =
     [Pwrite 3 [0, 0, 0, 1] 4 0 4, Pread 3 4 0 4, Ftime,
      Print_interrupt 0 0 (- 2147483648), Close 3]
   \<and> (128 * 16777216 + 0 * 65536 + 0 * 256 + 0 :: int) = 2147483648"
  by (simp add: sim_world_def sim_cycle_def startval_def reported_counter_def
      counter_expr_def promote_def)

subsection \<open>The acknowledge and wait protocol\<close>

lemma follows_loop:
  "follows fd Arming (filter is_protocol (fst (monitor_loop k w i fd fv)))"
proof (induction k arbitrary: i)
  case 0
  then show ?case by simp
next
  case (Suc k)
  show ?case
    using Suc.IH [of "Suc i"]
    by (simp add: Let_def is_protocol_def startval_def case_prod_beta)
qed

lemma loop_prefix:
  assumes "\<forall>j<n. wr_ret (dev w (i + j)) = 4 \<and> rd_ret (dev w (i + j)) = 4"
    and "fv \<noteq> 0 \<or> n = 0"
  shows "monitor_loop (n + k) w i fd fv =
           (concat (map (complete_pass w fd) [i..<i + n]) @ fst (monitor_loop k w (i + n) fd fv),
            snd (monitor_loop k w (i + n) fd fv))"
  using assms
proof (induction n arbitrary: i)
  case 0
  then show ?case by simp
next
  case (Suc n)
  have here: "wr_ret (dev w i) = 4" "rd_ret (dev w i) = 4"
    using Suc.prems(1) [rule_format, of 0] by simp_all
  have fv: "fv \<noteq> 0"
    using Suc.prems(2) by simp
  have "\<forall>j<n. wr_ret (dev w (Suc i + j)) = 4 \<and> rd_ret (dev w (Suc i + j)) = 4"
    using Suc.prems(1) [rule_format, of "Suc j" for j] by simp
  then have ih: "monitor_loop (n + k) w (Suc i) fd fv =
           (concat (map (complete_pass w fd) [Suc i..<Suc i + n])
              @ fst (monitor_loop k w (Suc i + n) fd fv),
            snd (monitor_loop k w (Suc i + n) fd fv))"
    using fv by (intro Suc.IH) simp_all
  have range: "[i..<i + Suc n] = i # [Suc i..<Suc i + n]"
    by (simp add: upt_conv_Cons)
  have "monitor_loop (Suc n + k) w i fd fv =
      (complete_pass w fd i @ fst (monitor_loop (n + k) w (Suc i) fd fv),
       snd (monitor_loop (n + k) w (Suc i) fd fv))"
    using here fv by (simp add: Let_def case_prod_beta complete_pass_def startval_def)
  then show ?case
    unfolding ih range by simp
qed

lemma length_passes: "length (concat (map (complete_pass w fd) js)) = 4 * length js"
  by (induction js) (simp_all add: complete_pass_def)

lemma loop_head:
  "\<exists>rest. fst (monitor_loop (Suc k) w i fd fv) =
            Pwrite fd [0, 0, 0, 1] 4 0 (wr_ret (dev w i)) # rest \<and>
          (wr_ret (dev w i) = 4 \<longrightarrow> rest ! 0 = Pread fd 4 0 (rd_ret (dev w i))) \<and>
          (wr_ret (dev w i) \<noteq> 4 \<longrightarrow> filter is_pread rest = [])"
  by (simp add: Let_def case_prod_beta startval_def)

text \<open>
  C1. Whatever the device answers and however long the monitor is observed, its transfers
  and reports on the descriptor it opened follow the protocol: first the \<^verbatim>\<open>pwrite\<close> of exactly
  the bytes 0, 0, 0, 1 at offset 0, then, only if that returned 4, the \<^verbatim>\<open>pread\<close> of 4 bytes
  at offset 0, then, only if that returned 4, the report. And every pass that is reached
  does this: when the file opens and the first \<open>n\<close> passes are complete (and the loop goes
  on, or \<open>n\<close> is 0), the run begins with the announcement, the \<^verbatim>\<open>open\<close> and \<open>n\<close> times write,
  read, \<^verbatim>\<open>ftime\<close>, report; the next event is the write of pass \<open>n\<close>; the event after it is
  the read if the write returned 4, and otherwise no read is made any more.
\<close>

theorem monitor_ack_before_wait:
  "follows (open_ret w) Arming (filter is_protocol (fst (monitor fuel w fpath fv))) \<and>
   (1 \<le> open_ret w \<longrightarrow>
    (\<forall>j<n. wr_ret (dev w j) = 4 \<and> rd_ret (dev w j) = 4) \<longrightarrow>
    (fv \<noteq> 0 \<or> n = 0) \<longrightarrow>
      take (2 + 4 * n) (fst (monitor (n + Suc k) w fpath fv)) =
        Stdout (''Waiting for interrupts on '' @ fpath) # Open fpath False #
        concat (map (\<lambda>j. [Pwrite (open_ret w) [0, 0, 0, 1] 4 0 4, Pread (open_ret w) 4 0 4,
                            Ftime,
                            Print_interrupt (tp_time (dev w j)) (tp_millitm (dev w j))
                              (reported_counter (char_signed w) (rd_buf (dev w j)))])
                  [0..<n]) \<and>
      fst (monitor (n + Suc k) w fpath fv) ! (2 + 4 * n) =
        Pwrite (open_ret w) [0, 0, 0, 1] 4 0 (wr_ret (dev w n)) \<and>
      (wr_ret (dev w n) = 4 \<longrightarrow>
         fst (monitor (n + Suc k) w fpath fv) ! (3 + 4 * n) =
           Pread (open_ret w) 4 0 (rd_ret (dev w n))) \<and>
      (wr_ret (dev w n) \<noteq> 4 \<longrightarrow>
         filter is_pread (drop (3 + 4 * n) (fst (monitor (n + Suc k) w fpath fv))) = []))"
proof (intro conjI impI)
  show "follows (open_ret w) Arming (filter is_protocol (fst (monitor fuel w fpath fv)))"
    using follows_loop [of "open_ret w" fuel w 0 fv]
    by (simp add: monitor_def Let_def is_protocol_def case_prod_beta)
next
  assume opened: "1 \<le> open_ret w"
    and complete: "\<forall>j<n. wr_ret (dev w j) = 4 \<and> rd_ret (dev w j) = 4"
    and reached: "fv \<noteq> 0 \<or> n = 0"
  define pre where "pre = Stdout (''Waiting for interrupts on '' @ fpath) # Open fpath False #
        concat (map (complete_pass w (open_ret w)) [0..<n])"
  obtain rest where head: "fst (monitor_loop (Suc k) w n (open_ret w) fv) =
            Pwrite (open_ret w) [0, 0, 0, 1] 4 0 (wr_ret (dev w n)) # rest"
    and rd: "wr_ret (dev w n) = 4 \<longrightarrow> rest ! 0 = Pread (open_ret w) 4 0 (rd_ret (dev w n))"
    and nord: "wr_ret (dev w n) \<noteq> 4 \<longrightarrow> filter is_pread rest = []"
    using loop_head [of k w n "open_ret w" fv] by blast
  have "monitor_loop (n + Suc k) w 0 (open_ret w) fv =
           (concat (map (complete_pass w (open_ret w)) [0..<0 + n])
              @ fst (monitor_loop (Suc k) w (0 + n) (open_ret w) fv),
            snd (monitor_loop (Suc k) w (0 + n) (open_ret w) fv))"
    using complete reached by (intro loop_prefix) simp_all
  then have trace: "fst (monitor (n + Suc k) w fpath fv) =
      pre @ Pwrite (open_ret w) [0, 0, 0, 1] 4 0 (wr_ret (dev w n)) # rest"
    using opened head by (simp add: monitor_def Let_def pre_def del: monitor_loop.simps)
  have len: "length pre = 2 + 4 * n"
    by (simp add: pre_def length_passes)
  have pre_eq: "pre = Stdout (''Waiting for interrupts on '' @ fpath) # Open fpath False #
        concat (map (\<lambda>j. [Pwrite (open_ret w) [0, 0, 0, 1] 4 0 4, Pread (open_ret w) 4 0 4,
                            Ftime,
                            Print_interrupt (tp_time (dev w j)) (tp_millitm (dev w j))
                              (reported_counter (char_signed w) (rd_buf (dev w j)))])
                  [0..<n])"
    by (simp add: pre_def complete_pass_def [abs_def])
  show "take (2 + 4 * n) (fst (monitor (n + Suc k) w fpath fv)) =
        Stdout (''Waiting for interrupts on '' @ fpath) # Open fpath False #
        concat (map (\<lambda>j. [Pwrite (open_ret w) [0, 0, 0, 1] 4 0 4, Pread (open_ret w) 4 0 4,
                            Ftime,
                            Print_interrupt (tp_time (dev w j)) (tp_millitm (dev w j))
                              (reported_counter (char_signed w) (rd_buf (dev w j)))])
                  [0..<n])"
    unfolding trace pre_eq [symmetric] using len by simp
  show "fst (monitor (n + Suc k) w fpath fv) ! (2 + 4 * n) =
        Pwrite (open_ret w) [0, 0, 0, 1] 4 0 (wr_ret (dev w n))"
    unfolding trace using len by (simp add: nth_append)
  show "fst (monitor (n + Suc k) w fpath fv) ! (3 + 4 * n) =
           Pread (open_ret w) 4 0 (rd_ret (dev w n))" if "wr_ret (dev w n) = 4"
    unfolding trace using len rd that by (simp add: nth_append)
  show "filter is_pread (drop (3 + 4 * n) (fst (monitor (n + Suc k) w fpath fv))) = []"
    if "wr_ret (dev w n) \<noteq> 4"
    unfolding trace using len nord that by simp
qed

text \<open>
  On the simulated device, with the loop going on: two complete passes, then the write and
  the read of the third.
\<close>

theorem monitor_ack_before_wait_witness:
  "1 \<le> open_ret (sim_world True (2, 0, 0, 0)) \<and>
   wr_ret (dev (sim_world True (2, 0, 0, 0)) 0) = 4 \<and>
   rd_ret (dev (sim_world True (2, 0, 0, 0)) 0) = 4 \<and>
   wr_ret (dev (sim_world True (2, 0, 0, 0)) 1) = 4 \<and>
   rd_ret (dev (sim_world True (2, 0, 0, 0)) 1) = 4 \<and>
   take 10 (fst (monitor 3 (sim_world True (2, 0, 0, 0)) ''/dev/uio0'' 1)) =
     [Stdout ''Waiting for interrupts on /dev/uio0'', Open ''/dev/uio0'' False,
      Pwrite 3 [0, 0, 0, 1] 4 0 4, Pread 3 4 0 4, Ftime, Print_interrupt 0 0 2,
      Pwrite 3 [0, 0, 0, 1] 4 0 4, Pread 3 4 0 4, Ftime, Print_interrupt 0 0 2] \<and>
   fst (monitor 3 (sim_world True (2, 0, 0, 0)) ''/dev/uio0'' 1) ! 10 =
     Pwrite 3 [0, 0, 0, 1] 4 0 4 \<and>
   fst (monitor 3 (sim_world True (2, 0, 0, 0)) ''/dev/uio0'' 1) ! 11 = Pread 3 4 0 4 \<and>
   follows 3 Arming
     (filter is_protocol (fst (monitor 3 (sim_world True (2, 0, 0, 0)) ''/dev/uio0'' 1)))"
  using monitor_ack_before_wait [where w="sim_world True (2, 0, 0, 0)" and n=2 and k=0
      and fv=1 and fpath="''/dev/uio0''" and fuel=3]
  by (simp add: sim_world_def sim_cycle_def reported_counter_def counter_expr_def promote_def
      upt_rec del: monitor_loop.simps)

subsection \<open>Run once\<close>

lemma loop_once:
  assumes "wr_ret (dev w i) = 4" and "rd_ret (dev w i) = 4"
  shows "monitor_loop (Suc k) w i fd 0 =
     ([Pwrite fd [0, 0, 0, 1] 4 0 4, Pread fd 4 0 4, Ftime,
       Print_interrupt (tp_time (dev w i)) (tp_millitm (dev w i))
         (reported_counter (char_signed w) (rd_buf (dev w i))),
       Close fd], Exit EXIT_SUCCESS)"
  using assms by (simp add: Let_def startval_def)

lemma getopt_x_sticks:
  "getopt_loop opts s = Inr s' \<Longrightarrow> forever s = 0 \<or> Opt_x \<in> set opts \<Longrightarrow>
   mode s = MODE_MONITOR \<or> Opt_x \<in> set opts \<Longrightarrow>
   forever s' = 0 \<and> mode s' = MODE_MONITOR"
proof (induction opts s rule: getopt_loop.induct)
qed (auto split: if_splits)

text \<open>
  C5. When \<^verbatim>\<open>-x\<close> is among the options (and no option ends the run before the monitor
  starts), the device file opens and the first acknowledge and wait are complete, the
  program makes exactly one \<^verbatim>\<open>pwrite\<close> and one \<^verbatim>\<open>pread\<close>, prints exactly one interrupt line,
  closes the file and exits with \<^verbatim>\<open>EXIT_SUCCESS\<close>. The run is the same for every bound on
  the observation and does not depend on the device's later answers.
\<close>

theorem run_once_single_cycle:
  assumes "Opt_x \<in> set opts" and "getopt_loop opts init_locals = Inr s"
    and "1 \<le> open_ret w" and "wr_ret (dev w 0) = 4" and "rd_ret (dev w 0) = 4"
  shows "main (Suc k) w opts [p] =
     ([Stdout (''Waiting for interrupts on '' @ str p), Open (str p) False,
       Pwrite (open_ret w) [0, 0, 0, 1] 4 0 4, Pread (open_ret w) 4 0 4, Ftime,
       Print_interrupt (tp_time (dev w 0)) (tp_millitm (dev w 0))
         (reported_counter (char_signed w) (rd_buf (dev w 0))),
       Close (open_ret w)], Exit EXIT_SUCCESS)"
proof -
  have "forever s = 0 \<and> mode s = MODE_MONITOR"
    using assms(1,2) by (intro getopt_x_sticks [of opts init_locals s]) simp_all
  then show ?thesis
    using assms(2,3) loop_once [OF assms(4,5), of k "open_ret w"]
    by (simp add: main_def monitor_def Let_def)
qed

text \<open>The simulated device would deliver interrupts for ever; with \<^verbatim>\<open>-x\<close> one is taken.\<close>

theorem run_once_single_cycle_witness:
  "Opt_x \<in> set [Opt_x] \<and>
   getopt_loop [Opt_x] init_locals = Inr (init_locals\<lparr>mode := MODE_MONITOR, forever := 0\<rparr>) \<and>
   1 \<le> open_ret (sim_world True (2, 0, 0, 0)) \<and>
   wr_ret (dev (sim_world True (2, 0, 0, 0)) 0) = 4 \<and>
   rd_ret (dev (sim_world True (2, 0, 0, 0)) 0) = 4 \<and>
   main (Suc 0) (sim_world True (2, 0, 0, 0)) [Opt_x] [uio0] =
     ([Stdout ''Waiting for interrupts on /dev/uio0'', Open ''/dev/uio0'' False,
       Pwrite 3 [0, 0, 0, 1] 4 0 4, Pread 3 4 0 4, Ftime,
       Print_interrupt 0 0 2, Close 3], Exit EXIT_SUCCESS)"
  using run_once_single_cycle [where opts="[Opt_x]" and w="sim_world True (2, 0, 0, 0)"
      and k=0 and p=uio0 and s="init_locals\<lparr>mode := MODE_MONITOR, forever := 0\<rparr>"]
  by (simp add: sim_world_def sim_cycle_def uio0_def reported_counter_def counter_expr_def
      promote_def)

subsection \<open>Short transfers\<close>

lemma loop_short_transfer:
  assumes "\<forall>j<n. wr_ret (dev w (i + j)) = 4 \<and> rd_ret (dev w (i + j)) = 4"
    and "wr_ret (dev w (i + n)) \<noteq> 4 \<or> rd_ret (dev w (i + n)) \<noteq> 4"
    and "fv \<noteq> 0 \<or> n = 0"
  shows "snd (monitor_loop (Suc (n + k)) w i fd fv) = Exit EXIT_FAILURE \<and>
         length (filter is_pwrite (fst (monitor_loop (Suc (n + k)) w i fd fv))) = Suc n \<and>
         length (filter is_pread (fst (monitor_loop (Suc (n + k)) w i fd fv)))
           = (if wr_ret (dev w (i + n)) \<noteq> 4 then n else Suc n)"
  using assms
proof (induction n arbitrary: i)
  case 0
  then show ?case by (auto simp add: Let_def)
next
  case (Suc n)
  have here: "wr_ret (dev w i) = 4" "rd_ret (dev w i) = 4"
    using Suc.prems(1) [rule_format, of 0] by simp_all
  have fv: "fv \<noteq> 0"
    using Suc.prems(3) by simp
  have "\<forall>j<n. wr_ret (dev w (Suc i + j)) = 4 \<and> rd_ret (dev w (Suc i + j)) = 4"
    using Suc.prems(1) [rule_format, of "Suc j" for j] by simp
  moreover have "wr_ret (dev w (Suc i + n)) \<noteq> 4 \<or> rd_ret (dev w (Suc i + n)) \<noteq> 4"
    using Suc.prems(2) by simp
  ultimately have ih: "snd (monitor_loop (Suc (n + k)) w (Suc i) fd fv) = Exit EXIT_FAILURE \<and>
         length (filter is_pwrite (fst (monitor_loop (Suc (n + k)) w (Suc i) fd fv))) = Suc n \<and>
         length (filter is_pread (fst (monitor_loop (Suc (n + k)) w (Suc i) fd fv)))
           = (if wr_ret (dev w (Suc i + n)) \<noteq> 4 then n else Suc n)"
    using fv by (intro Suc.IH) simp_all
  have unfold: "monitor_loop (Suc (Suc n + k)) w i fd fv =
      ([Pwrite fd startval 4 0 4, Pread fd 4 0 4, Ftime,
        Print_interrupt (tp_time (dev w i)) (tp_millitm (dev w i))
          (reported_counter (char_signed w) (rd_buf (dev w i)))]
        @ fst (monitor_loop (Suc (n + k)) w (Suc i) fd fv),
       snd (monitor_loop (Suc (n + k)) w (Suc i) fd fv))"
    using here fv by (simp add: Let_def case_prod_beta)
  show ?case
    unfolding unfold using ih by simp
qed

text \<open>
  C9. If the first \<open>n\<close> passes of the loop are complete and in pass \<open>n\<close> the \<^verbatim>\<open>pwrite\<close> or the
  \<^verbatim>\<open>pread\<close> does not return 4, the monitor exits with \<^verbatim>\<open>EXIT_FAILURE\<close>, which is not 0.
  It has then made \<open>n + 1\<close> writes, and \<open>n\<close> or \<open>n + 1\<close> reads according to which transfer
  was short: the short transfer is the last one, nothing is tried again.
\<close>

theorem short_transfer_is_fatal:
  assumes "1 \<le> open_ret w"
    and "\<forall>j<n. wr_ret (dev w j) = 4 \<and> rd_ret (dev w j) = 4"
    and "wr_ret (dev w n) \<noteq> 4 \<or> rd_ret (dev w n) \<noteq> 4"
    and "fv \<noteq> 0 \<or> n = 0"
  shows "snd (monitor (Suc (n + k)) w fpath fv) = Exit EXIT_FAILURE \<and>
         EXIT_FAILURE \<noteq> 0 \<and>
         length (filter is_pwrite (fst (monitor (Suc (n + k)) w fpath fv))) = Suc n \<and>
         length (filter is_pread (fst (monitor (Suc (n + k)) w fpath fv)))
           = (if wr_ret (dev w n) \<noteq> 4 then n else Suc n)"
proof -
  have "monitor (Suc (n + k)) w fpath fv =
      (Stdout (''Waiting for interrupts on '' @ fpath) # Open fpath False #
         fst (monitor_loop (Suc (n + k)) w 0 (open_ret w) fv),
       snd (monitor_loop (Suc (n + k)) w 0 (open_ret w) fv))"
    using assms(1) by (simp add: monitor_def Let_def case_prod_beta del: monitor_loop.simps)
  then show ?thesis
    using loop_short_transfer [of n w 0 fv k "open_ret w"] assms(2,3,4)
    by (simp add: EXIT_FAILURE_def del: monitor_loop.simps)
qed

text \<open>Two complete passes, then a read of two bytes: three writes, three reads, failure.\<close>

theorem short_transfer_is_fatal_witness:
  "1 \<le> open_ret ((sim_world True (0, 0, 0, 0))\<lparr>dev := short_read_dev\<rparr>) \<and>
   wr_ret (short_read_dev 0) = 4 \<and> rd_ret (short_read_dev 0) = 4 \<and>
   wr_ret (short_read_dev 1) = 4 \<and> rd_ret (short_read_dev 1) = 4 \<and>
   rd_ret (short_read_dev 2) \<noteq> 4 \<and>
   snd (monitor 5 ((sim_world True (0, 0, 0, 0))\<lparr>dev := short_read_dev\<rparr>) ''/dev/uio0'' 1)
     = Exit EXIT_FAILURE \<and>
   length (filter is_pwrite
     (fst (monitor 5 ((sim_world True (0, 0, 0, 0))\<lparr>dev := short_read_dev\<rparr>) ''/dev/uio0'' 1))) = 3 \<and>
   length (filter is_pread
     (fst (monitor 5 ((sim_world True (0, 0, 0, 0))\<lparr>dev := short_read_dev\<rparr>) ''/dev/uio0'' 1))) = 3"
  using short_transfer_is_fatal [where w="(sim_world True (0, 0, 0, 0))\<lparr>dev := short_read_dev\<rparr>"
      and n=2 and k=2 and fv=1 and fpath="''/dev/uio0''"]
  by (simp add: sim_world_def sim_cycle_def short_read_dev_def del: monitor_loop.simps)

subsection \<open>Register access\<close>

lemma le_bytes_roundtrip:
  "(ucast (ucast (v::cint) :: byte) OR push_bit 8 (ucast (ucast (drop_bit 8 v) :: byte)) OR
     push_bit 16 (ucast (ucast (drop_bit 16 v) :: byte)) OR
     push_bit 24 (ucast (ucast (drop_bit 24 v) :: byte))) = v"
  (is "?L = v")
proof (rule bit_eqI)
  fix n :: nat
  assume "possible_bit TYPE(cint) n"
  then have n: "n < 32" by (simp add: possible_bit_word)
  consider "n < 8" | "8 \<le> n" "n < 16" | "16 \<le> n" "n < 24" | "24 \<le> n"
    by linarith
  then show "bit ?L n = bit v n"
    using n by cases (auto simp add: bit_simps)
qed

lemma load32_store32: "load32 (store32 m a v) a = v"
  unfolding load32_def store32_def using le_bytes_roundtrip [of v] by simp

lemma load_word_in_map:
  "in_map mp addr \<Longrightarrow> load_word mp m sl addr = Some (load32 m (nat (sint addr)))"
  by (simp add: load_word_def)

lemma read_words_stop: "\<not> 0 <s c \<Longrightarrow> read_words mp m sl c addr wd = ([], False)"
  by (subst read_words.simps) simp

lemma read_words_fault:
  "0 <s c \<Longrightarrow> load_word mp m sl addr = None \<Longrightarrow>
   read_words mp m sl c addr wd = ([Load addr], True)"
  by (subst read_words.simps) simp

lemma read_words_found:
  "0 <s c \<Longrightarrow> load_word mp m sl addr = Some x \<Longrightarrow>
   read_words mp m sl c addr wd =
     (Load addr # Print_reg addr x # fst (read_words mp m sl (c - 1) (addr + wd) wd),
      snd (read_words mp m sl (c - 1) (addr + wd) wd))"
  by (subst read_words.simps) (simp add: case_prod_beta)

lemma read_words_step:
  "0 <s c \<Longrightarrow> in_map mp addr \<Longrightarrow>
   read_words mp m sl c addr wd =
     (Load addr # Print_reg addr (load32 m (nat (sint addr))) #
        fst (read_words mp m sl (c - 1) (addr + wd) wd),
      snd (read_words mp m sl (c - 1) (addr + wd) wd))"
  by (simp add: read_words_found load_word_in_map)

text \<open>
  C3. For every address whose four bytes lie within the mapping and every 32-bit value, the
  store of write mode succeeds, and the read loop run for one word at the same address on
  the memory the store left behind loads and prints exactly that value. The mapping is
  taken to behave as memory: what is stored at an offset is what is loaded from it.
\<close>

theorem write_then_read:
  assumes "in_map mp addr"
  shows "fst (write_word mp m ss addr v) = ([Store addr v], False) \<and>
         read_words mp (snd (write_word mp m ss addr v)) sl 1 addr 4 =
           ([Load addr, Print_reg addr v], False)"
proof -
  have one: "0 <s (1::cint)"
    by (simp add: word_sless_alt)
  have zero: "\<not> 0 <s (0 :: cint)"
    by simp
  show ?thesis
    using assms
    by (simp add: write_word_def read_words_step [OF one] read_words_stop [OF zero]
        load32_store32)
qed

text \<open>On the simulated host: store 0xdeadbeef at offset 8 and read it back.\<close>

theorem write_then_read_witness:
  "in_map (Some 4096) 8 \<and>
   read_words (Some 4096) (snd (write_word (Some 4096) (\<lambda>a. 0) (\<lambda>a. False) 8 0xdeadbeef))
     (\<lambda>a. None) 1 8 4 =
     ([Load 8, Print_reg 8 0xdeadbeef], False)"
  using write_then_read [of "Some 4096" 8 "\<lambda>a. 0" "\<lambda>a. False" "0xdeadbeef" "\<lambda>a. None"]
  by (simp add: in_map_def)

lemma sint_of_nat_small: "n < 2 ^ 31 \<Longrightarrow> sint (word_of_nat n :: cint) = int n"
proof -
  assume "n < 2 ^ 31"
  then have "int n < 2 ^ 31"
    by (metis of_nat_less_iff of_nat_numeral of_nat_power)
  then have "signed_take_bit 31 (int n) = int n"
    by (intro signed_take_bit_int_eq_self) simp_all
  then show ?thesis
    by (simp add: signed_of_nat)
qed

lemma read_words_all:
  assumes "n < 2 ^ 31"
    and "\<forall>i<n. in_map mp (start + 4 * word_of_nat i)"
  shows "read_words mp m sl (word_of_nat n) start 4 =
     (concat (map (\<lambda>i. [Load (start + 4 * word_of_nat i),
                          Print_reg (start + 4 * word_of_nat i)
                            (load32 m (nat (sint (start + 4 * word_of_nat i))))]) [0..<n]),
      False)"
  using assms
proof (induction n arbitrary: start)
  case 0
  then show ?case by (simp add: read_words_stop)
next
  case (Suc n)
  have pos: "0 <s (word_of_nat (Suc n) :: cint)"
    using sint_of_nat_small [OF Suc.prems(1)] by (simp add: word_sless_alt)
  have here: "in_map mp start"
    using Suc.prems(2) [rule_format, of 0] by simp
  have rest: "\<forall>i<n. in_map mp (start + 4 + 4 * word_of_nat i)"
    using Suc.prems(2) [rule_format, of "Suc i" for i] by (simp add: algebra_simps)
  have ih: "read_words mp m sl (word_of_nat n) (start + 4) 4 =
     (concat (map (\<lambda>i. [Load (start + 4 + 4 * word_of_nat i),
                          Print_reg (start + 4 + 4 * word_of_nat i)
                            (load32 m (nat (sint (start + 4 + 4 * word_of_nat i))))]) [0..<n]),
      False)"
    using Suc.prems(1) rest by (intro Suc.IH) simp_all
  have shift: "start + 4 + 4 * word_of_nat i = start + 4 * word_of_nat (Suc i)" for i
    by (simp add: algebra_simps)
  have pred: "(word_of_nat (Suc n) :: cint) - 1 = word_of_nat n"
    by simp
  show ?case
    unfolding read_words_step [OF pos here] pred ih shift
    by (simp only: map_upt_Suc [of _ n] fst_conv snd_conv concat.simps list.map append_Cons append_Nil
        mult_zero_right add_0_right semiring_1_class.of_nat_0)
qed

subsection \<open>Options\<close>

lemma getopt_width:
  "getopt_loop opts s = Inr s' \<Longrightarrow> width s = 4 \<Longrightarrow> width s' = 4"
proof (induction opts s rule: getopt_loop.induct)
qed (auto split: if_splits)

lemma getopt_mode:
  "getopt_loop opts s = Inr s' \<Longrightarrow> mode s = MODE_READ \<or> mode s = MODE_MONITOR \<Longrightarrow>
   mode s' = MODE_READ \<or> mode s' = MODE_MONITOR"
proof (induction opts s rule: getopt_loop.induct)
qed (auto split: if_splits)

lemma init_width: "width init_locals = 4"
  by (simp add: init_locals_def DEFAULT_WIDTH_def)

lemma getopt_first_stop:
  assumes "first_stop opts = Some x"
  shows "(x = Opt_h \<longrightarrow> getopt_loop opts s = Inl ([Usage EXIT_SUCCESS], Exit EXIT_SUCCESS)) \<and>
         (x \<noteq> Opt_h \<longrightarrow>
            (\<exists>t. getopt_loop opts s = Inl (t, Exit EXIT_FAILURE) \<and>
                 filter touches_device t = []))"
  using assms
proof (induction opts arbitrary: s)
  case Nil
  then show ?case by (simp add: first_stop_def)
next
  case (Cons y opts)
  show ?case
  proof (cases "passes y")
    case True
    then have "first_stop opts = Some x"
      using Cons.prems by (simp add: first_stop_def)
    then show ?thesis
      using Cons.IH True by (cases y) simp_all
  next
    case False
    then have "x = y"
      using Cons.prems by (simp add: first_stop_def)
    then show ?thesis
      using False by (cases y) auto
  qed
qed

lemma unsupported_stops: "unsupported x \<Longrightarrow> \<not> passes x"
  by (cases x) simp_all

text \<open>
  C8, as amended. If the options hold a \<^verbatim>\<open>-w\<close> whose value is not 4 or a \<^verbatim>\<open>-r\<close> whose value
  is not 0 (the value being the \<^verbatim>\<open>int\<close> the program compares), no call of the run opens, maps,
  reads or writes the device. The run ends at the first option that the option loop does
  not pass: if that option is \<^verbatim>\<open>-h\<close>, the run is the usage text and the exit status
  \<^verbatim>\<open>EXIT_SUCCESS\<close>, which is 0; in every other case the exit status is \<^verbatim>\<open>EXIT_FAILURE\<close>, which
  is not 0.
\<close>

theorem unsupported_option_rejected:
  assumes "bad \<in> set opts" and "unsupported bad"
  shows "filter touches_device (fst (main fuel w opts args)) = [] \<and>
         (if first_stop opts = Some Opt_h
          then main fuel w opts args = ([Usage EXIT_SUCCESS], Exit EXIT_SUCCESS) \<and>
               EXIT_SUCCESS = 0
          else snd (main fuel w opts args) = Exit EXIT_FAILURE \<and> EXIT_FAILURE \<noteq> 0)"
proof -
  have "\<exists>x. x \<in> set opts \<and> \<not> passes x"
    using assms unsupported_stops by blast
  then obtain x where stop: "first_stop opts = Some x"
    unfolding first_stop_def by (cases "find (\<lambda>x. \<not> passes x) opts") (auto simp: find_None_iff)
  show ?thesis
  proof (cases "x = Opt_h")
    case True
    then show ?thesis
      using stop getopt_first_stop [OF stop, of init_locals]
      by (simp add: main_def EXIT_SUCCESS_def)
  next
    case False
    then obtain t where "getopt_loop opts init_locals = Inl (t, Exit EXIT_FAILURE)"
      and "filter touches_device t = []"
      using getopt_first_stop [OF stop, of init_locals] by blast
    then show ?thesis
      using stop False by (simp add: main_def EXIT_FAILURE_def)
  qed
qed

text \<open>
  \<^verbatim>\<open>uioctl -n 2 -w 8 -m /dev/uio0\<close> fails before the monitor starts; \<^verbatim>\<open>uioctl -l -h -w 8
  /dev/uio0 0\<close> fails at \<^verbatim>\<open>-l\<close> although a \<^verbatim>\<open>-h\<close> stands before the width; and \<^verbatim>\<open>uioctl -n 2
  -h -w 8 /dev/uio0 0\<close> prints the usage and succeeds.
\<close>

theorem unsupported_option_rejected_witness:
  "Opt_w 8 False \<in> set [Opt_n 2 False, Opt_w 8 False, Opt_m] \<and>
   unsupported (Opt_w 8 False) \<and>
   first_stop [Opt_n 2 False, Opt_w 8 False, Opt_m] = Some (Opt_w 8 False) \<and>
   filter touches_device
     (fst (main 1 (sim_world True (0, 0, 0, 0)) [Opt_n 2 False, Opt_w 8 False, Opt_m] [uio0])) = [] \<and>
   snd (main 1 (sim_world True (0, 0, 0, 0)) [Opt_n 2 False, Opt_w 8 False, Opt_m] [uio0])
     = Exit EXIT_FAILURE \<and>
   first_stop [Opt_l, Opt_h, Opt_w 8 False] = Some Opt_l \<and>
   snd (main 1 (sim_world True (0, 0, 0, 0)) [Opt_l, Opt_h, Opt_w 8 False] [uio0, num_arg ''0'' 0])
     = Exit EXIT_FAILURE \<and>
   first_stop [Opt_n 2 False, Opt_h, Opt_w 8 False] = Some Opt_h \<and>
   main 1 (sim_world True (0, 0, 0, 0)) [Opt_n 2 False, Opt_h, Opt_w 8 False]
     [uio0, num_arg ''0'' 0] = ([Usage EXIT_SUCCESS], Exit EXIT_SUCCESS)"
  using unsupported_option_rejected [where opts="[Opt_n 2 False, Opt_w 8 False, Opt_m]"
      and bad="Opt_w 8 False" and fuel=1 and w="sim_world True (0, 0, 0, 0)" and args="[uio0]"]
    unsupported_option_rejected [where opts="[Opt_l, Opt_h, Opt_w 8 False]"
      and bad="Opt_w 8 False" and fuel=1 and w="sim_world True (0, 0, 0, 0)"
      and args="[uio0, num_arg ''0'' 0]"]
    unsupported_option_rejected [where opts="[Opt_n 2 False, Opt_h, Opt_w 8 False]"
      and bad="Opt_w 8 False" and fuel=1 and w="sim_world True (0, 0, 0, 0)"
      and args="[uio0, num_arg ''0'' 0]"]
  by (simp add: to_int_def first_stop_def)

text \<open>
  C8 as stated fails when \<^verbatim>\<open>-h\<close> comes first: \<^verbatim>\<open>uioctl -h -w 8 /dev/uio0 0\<close> asks for a
  width of 8, prints the usage and exits with status 0.
\<close>

theorem help_before_width_counterexample:
  "main 1 (sim_world True (0, 0, 0, 0)) [Opt_h, Opt_w 8 False] [uio0, num_arg ''0'' 0]
     = ([Usage EXIT_SUCCESS], Exit EXIT_SUCCESS) \<and> EXIT_SUCCESS = 0"
  by (simp add: main_def EXIT_SUCCESS_def)

subsection \<open>Read mode with no words\<close>

text \<open>
  C10. In read mode with a count of 0 the run prints no register line and makes no access
  through the mapping; when the device file opens, the run is open, map, unmap, close and
  the status is \<^verbatim>\<open>EXIT_SUCCESS\<close>.
\<close>

theorem zero_count_reads_nothing:
  assumes "getopt_loop opts init_locals = Inr s" and "mode s = MODE_READ" and "count s = 0"
    and "\<not> erange a"
  shows "filter is_reg_line (fst (main fuel w opts [p, a])) = [] \<and>
         filter is_access (fst (main fuel w opts [p, a])) = [] \<and>
         (1 \<le> open_ret w \<longrightarrow>
            main fuel w opts [p, a] =
              ([Open (str p) True, Mmap 0 (open_ret w), Munmap 0, Close (open_ret w)],
               Exit EXIT_SUCCESS))"
  using assms by (simp add: main_def map_and_access_def Let_def read_words_stop)

text \<open>\<^verbatim>\<open>uioctl -n 0 /dev/uio0 0x10\<close> on the simulated host.\<close>

theorem zero_count_reads_nothing_witness:
  "getopt_loop [Opt_n 0 False] init_locals = Inr (init_locals\<lparr>count := 0\<rparr>) \<and>
   mode (init_locals\<lparr>count := 0\<rparr>) = MODE_READ \<and> count (init_locals\<lparr>count := 0\<rparr>) = 0 \<and>
   \<not> erange (num_arg ''0x10'' 16) \<and> 1 \<le> open_ret (sim_world True (0, 0, 0, 0)) \<and>
   main 0 (sim_world True (0, 0, 0, 0)) [Opt_n 0 False] [uio0, num_arg ''0x10'' 16] =
     ([Open ''/dev/uio0'' True, Mmap 0 3, Munmap 0, Close 3], Exit EXIT_SUCCESS)"
  using zero_count_reads_nothing [where opts="[Opt_n 0 False]" and s="init_locals\<lparr>count := 0\<rparr>"
      and a="num_arg ''0x10'' 16" and p=uio0 and fuel=0 and w="sim_world True (0, 0, 0, 0)"]
  by (simp add: to_int_def init_locals_def num_arg_def uio0_def sim_world_def)

subsection \<open>Failure of the mapping\<close>

text \<open>
  C7 does not hold of the program: the value \<^verbatim>\<open>mmap\<close> returns is never compared with
  \<^verbatim>\<open>MAP_FAILED\<close>. For \<^verbatim>\<open>uioctl /dev/uio0 0\<close> on a host where the file opens as descriptor 3
  and the mapping fails, the program goes on to load through the pointer and is ended by
  the fault: no message about the mapping, no exit status, no \<^verbatim>\<open>close\<close> of the descriptor.
\<close>

theorem unchecked_mmap_failure:
  "main 0 ((sim_world True (0, 0, 0, 0))\<lparr>mmap_ret := None\<rparr>) [] [uio0, num_arg ''0'' 0] =
     ([Open ''/dev/uio0'' True, Mmap 4 3, Load 0], Fault)"
  by (simp add: main_def map_and_access_def Let_def init_locals_def DEFAULT_WIDTH_def
      sim_world_def uio0_def num_arg_def to_int_def read_words_fault load_word_def in_map_def
      word_sless_alt)

subsection \<open>The lines of read mode\<close>

lemma sint_add4:
  assumes "0 \<le> sint (a::cint)" and "0 \<le> sint (a + 4)"
  shows "sint (a + 4) = sint a + 4"
proof -
  have up: "sint a < 2 ^ 31"
    using sint_lt [of a] by simp
  have eq: "sint (a + 4) = (sint a + 4 + 2 ^ 31) mod 2 ^ 32 - 2 ^ 31"
    by (simp add: sint_word_add signed_take_bit_eq_take_bit_shift take_bit_eq_mod)
  show ?thesis
  proof (cases "sint a + 4 < 2 ^ 31")
    case True
    then have "(sint a + 4 + 2 ^ 31) mod 2 ^ 32 = sint a + 4 + 2 ^ 31"
      using assms(1) by (intro mod_pos_pos_trivial) simp_all
    then show ?thesis
      using eq by simp
  next
    case False
    then have "(sint a + 4 + 2 ^ 31) mod 2 ^ 32 = sint a + 4 + 2 ^ 31 - 2 ^ 32"
      using up by (simp add: mod_pos_geq)
    then have "sint (a + 4) < 0"
      using eq up by simp
    then show ?thesis
      using assms(2) by simp
  qed
qed

lemma ascending_addresses:
  assumes "\<forall>i<n. in_map mp (start + 4 * word_of_nat i)"
  shows "i < n \<Longrightarrow> sint (start + 4 * word_of_nat i) = sint start + 4 * int i"
proof (induction i)
  case 0
  then show ?case by simp
next
  case (Suc i)
  have a: "0 \<le> sint (start + 4 * word_of_nat i)"
    using assms [rule_format, of i] Suc.prems by (simp add: in_map_def split: option.splits)
  have next_addr: "start + 4 * word_of_nat (Suc i) = start + 4 * word_of_nat i + 4"
    by (simp add: algebra_simps)
  have "0 \<le> sint (start + 4 * word_of_nat (Suc i))"
    using assms [rule_format, of "Suc i"] Suc.prems by (simp add: in_map_def split: option.splits)
  then have "0 \<le> sint (start + 4 * word_of_nat i + 4)"
    by (simp only: next_addr)
  then have "sint (start + 4 * word_of_nat i + 4) = sint (start + 4 * word_of_nat i) + 4"
    by (rule sint_add4 [OF a])
  then have "sint (start + 4 * word_of_nat (Suc i)) = sint (start + 4 * word_of_nat i) + 4"
    by (simp only: next_addr)
  then show ?case
    using Suc by simp
qed

lemma reg_lines_concat:
  "reg_lines (concat (map (\<lambda>i. [Load (f i), Print_reg (f i) (g i)]) xs)) = map (\<lambda>i. (f i, g i)) xs"
  by (induction xs) simp_all

lemma reg_lines_append: "reg_lines (xs @ ys) = reg_lines xs @ reg_lines ys"
  by (induction xs rule: reg_lines.induct) simp_all

lemma length_fmt_08x: "length (fmt_08x x) = 8"
  by (simp add: fmt_08x_def)

lemma digit_value_hex_digit: "d < 16 \<Longrightarrow> digit_value (hex_digit d) = d"
proof -
  have "\<forall>d \<in> set [0..<16]. digit_value (hex_digit d) = d"
    by (simp add: upt_rec hex_digit_def digit_value_def)
  then show "d < 16 \<Longrightarrow> digit_value (hex_digit d) = d"
    by simp
qed

lemma nibble_unat: "unat (drop_bit k (x::cint) AND 15) = (unat x div 2 ^ k) mod 16"
proof -
  have "(15 :: cint) = mask 4"
    by (simp add: mask_eq_exp_minus_1)
  then have "drop_bit k x AND 15 = take_bit 4 (drop_bit k x)"
    by (simp only: take_bit_eq_mask)
  then have "unat (drop_bit k x AND 15) = take_bit 4 (drop_bit k (unat x))"
    by (simp only: unsigned_take_bit_eq unat_drop_bit_eq)
  then show ?thesis
    by (simp add: take_bit_eq_mod drop_bit_eq_div)
qed

lemma nibble_bound: "unat ((y::cint) AND 15) < 16"
  using nibble_unat [of 0 y] by simp

lemma hex_value_digits:
  "\<forall>d \<in> set ds. d < 16 \<Longrightarrow>
   foldl (\<lambda>acc c. 16 * acc + digit_value c) acc (map hex_digit ds) =
   foldl (\<lambda>acc d. 16 * acc + d) acc ds"
  by (induction ds arbitrary: acc) (simp_all add: digit_value_hex_digit)

lemma horner_digits:
  "foldl (\<lambda>acc d. 16 * acc + d) (acc::nat) (map (\<lambda>i. n div 16 ^ i mod 16) (rev [0..<k])) =
   acc * 16 ^ k + n mod 16 ^ k"
proof (induction k arbitrary: acc)
  case 0
  then show ?case by simp
next
  case (Suc k)
  have split: "n mod (16 ^ k * 16) = 16 ^ k * (n div 16 ^ k mod 16) + n mod 16 ^ k"
    by (rule mod_mult2_eq)
  have "foldl (\<lambda>acc d. 16 * acc + d) acc (map (\<lambda>i. n div 16 ^ i mod 16) (rev [0..<Suc k])) =
        foldl (\<lambda>acc d. 16 * acc + d) (16 * acc + n div 16 ^ k mod 16)
          (map (\<lambda>i. n div 16 ^ i mod 16) (rev [0..<k]))"
    by simp
  also have "\<dots> = (16 * acc + n div 16 ^ k mod 16) * 16 ^ k + n mod 16 ^ k"
    by (rule Suc.IH)
  also have "\<dots> = acc * 16 ^ Suc k + n mod 16 ^ Suc k"
    using split by (simp add: algebra_simps)
  finally show ?case .
qed

lemma fmt_08x_digits_of:
  "fmt_08x x = map hex_digit (map (\<lambda>i. unat x div 16 ^ i mod 16) (rev [0..<8]))"
proof -
  have "rev [0..<8] = [7, 6, 5, 4, 3, 2, 1, 0 :: nat]"
    by (simp add: upt_rec)
  moreover have "unat (drop_bit (4 * i) x AND 15) = unat x div 16 ^ i mod 16" for i
    using nibble_unat [of "4 * i" x] by (simp add: power_mult)
  ultimately show ?thesis
    by (simp add: fmt_08x_def)
qed

lemma hex_value_fmt_08x: "hex_value (fmt_08x x) = unat x"
proof -
  have "unat x < 16 ^ 8"
    using unsigned_less [of x, where 'a=nat] by simp
  then have "unat x mod 16 ^ 8 = unat x"
    by (rule mod_less)
  moreover have "hex_value (fmt_08x x) = 0 * 16 ^ 8 + unat x mod 16 ^ 8"
    unfolding hex_value_def fmt_08x_digits_of
    by (subst hex_value_digits) (simp_all only: horner_digits set_map, auto)
  ultimately show ?thesis
    by simp
qed

lemma hex_digit_mem: "d < 16 \<Longrightarrow> hex_digit d \<in> set ''0123456789abcdef''"
  unfolding hex_digit_def by (rule nth_mem) simp

lemma fmt_08x_digits: "set (fmt_08x x) \<subseteq> set ''0123456789abcdef''"
  unfolding fmt_08x_def using hex_digit_mem [OF nibble_bound] by auto

text \<open>
  C4. In read mode with a count \<open>n\<close> (as a positive \<^verbatim>\<open>int\<close>, or 0), when the device file opens
  and each of the \<open>n\<close> words lies within the mapped bytes, the program prints exactly \<open>n\<close>
  lines; line \<open>i\<close>, counted from 0, carries the address \<open>start + 4*i\<close> and the word loaded
  there; the addresses ascend by 4 without wrapping; each line is the text \<^verbatim>\<open>0x\<close>, the
  address in 8 hexadecimal digits, a tab, the value in 8 hexadecimal digits, a newline, the
  digits of each field denoting its unsigned 32-bit number; and the exit status is \<^verbatim>\<open>EXIT_SUCCESS\<close>.
\<close>

theorem read_mode_lines:
  assumes "getopt_loop opts init_locals = Inr s" and "mode s = MODE_READ"
    and "count s = word_of_nat n" and "n < 2 ^ 31"
    and "\<not> erange a" and "1 \<le> open_ret w"
    and "\<forall>i<n. in_map (mmap_ret w) (to_int (ul a) + 4 * word_of_nat i)"
  shows "reg_lines (fst (main fuel w opts [p, a])) =
           map (\<lambda>i. (to_int (ul a) + 4 * word_of_nat i,
                      load32 (mem w) (nat (sint (to_int (ul a) + 4 * word_of_nat i))))) [0..<n] \<and>
         length (reg_lines (fst (main fuel w opts [p, a]))) = n \<and>
         (\<forall>i<n. sint (to_int (ul a) + 4 * word_of_nat i) = sint (to_int (ul a)) + 4 * int i) \<and>
         (\<forall>(x, v) \<in> set (reg_lines (fst (main fuel w opts [p, a]))).
            reg_line_text x v = ''0x'' @ fmt_08x x @ [CHR 0x09] @ fmt_08x v @ [CHR 0x0A] \<and>
            length (fmt_08x x) = 8 \<and> hex_value (fmt_08x x) = unat x \<and>
            length (fmt_08x v) = 8 \<and> hex_value (fmt_08x v) = unat v \<and>
            set (fmt_08x v) \<subseteq> set ''0123456789abcdef'') \<and>
         snd (main fuel w opts [p, a]) = Exit EXIT_SUCCESS"
proof -
  have wd: "width s = 4"
    using getopt_width [OF assms(1) init_width] .
  have run: "main fuel w opts [p, a] =
      (Open (str p) True # Mmap (word_of_nat n * 4) (open_ret w) #
         concat (map (\<lambda>i. [Load (to_int (ul a) + 4 * word_of_nat i),
                          Print_reg (to_int (ul a) + 4 * word_of_nat i)
                            (load32 (mem w) (nat (sint (to_int (ul a) + 4 * word_of_nat i))))])
                 [0..<n])
         @ [Munmap (word_of_nat n * 4), Close (open_ret w)],
       Exit EXIT_SUCCESS)"
    using assms(1,2,3,5,6) wd read_words_all [OF assms(4,7), of "mem w" "stray_load w"]
    by (simp add: main_def map_and_access_def Let_def)
  have lines: "reg_lines (fst (main fuel w opts [p, a])) =
           map (\<lambda>i. (to_int (ul a) + 4 * word_of_nat i,
                      load32 (mem w) (nat (sint (to_int (ul a) + 4 * word_of_nat i))))) [0..<n]"
    unfolding run by (simp add: reg_lines_append reg_lines_concat)
  show ?thesis
    unfolding lines using ascending_addresses [OF assms(7)] fmt_08x_digits
    by (simp add: run length_fmt_08x hex_value_fmt_08x reg_line_text_def)
qed

text \<open>\<^verbatim>\<open>uioctl -n 2 /dev/uio0 8\<close> on the simulated host prints the words at 8 and 12.\<close>

theorem read_mode_lines_witness:
  "getopt_loop [Opt_n 2 False] init_locals = Inr (init_locals\<lparr>count := 2\<rparr>) \<and>
   \<not> erange (num_arg ''8'' 8) \<and> 1 \<le> open_ret (sim_world True (0, 0, 0, 0)) \<and>
   in_map (mmap_ret (sim_world True (0, 0, 0, 0))) (to_int (ul (num_arg ''8'' 8)) + 4 * 0) \<and>
   in_map (mmap_ret (sim_world True (0, 0, 0, 0))) (to_int (ul (num_arg ''8'' 8)) + 4 * 1) \<and>
   reg_lines (fst (main 0 (sim_world True (0, 0, 0, 0)) [Opt_n 2 False] [uio0, num_arg ''8'' 8]))
     = [(8, 0), (12, 0)] \<and>
   reg_line_text 12 0 = ''0x0000000c'' @ [CHR 0x09] @ ''00000000'' @ [CHR 0x0A]"
proof -
  have m: "\<forall>i<2. in_map (mmap_ret (sim_world True (0, 0, 0, 0)))
             (to_int (ul (num_arg ''8'' 8)) + 4 * word_of_nat i)"
    by (simp add: sim_world_def num_arg_def to_int_def in_map_def less_Suc_eq numeral_2_eq_2)
  have "reg_lines (fst (main 0 (sim_world True (0, 0, 0, 0)) [Opt_n 2 False] [uio0, num_arg ''8'' 8]))
     = map (\<lambda>i. (to_int (ul (num_arg ''8'' 8)) + 4 * word_of_nat i,
                      load32 (mem (sim_world True (0, 0, 0, 0)))
                        (nat (sint (to_int (ul (num_arg ''8'' 8)) + 4 * word_of_nat i))))) [0..<2]"
    using m read_mode_lines [where opts="[Opt_n 2 False]" and s="init_locals\<lparr>count := 2\<rparr>"
        and n=2 and a="num_arg ''8'' 8" and w="sim_world True (0, 0, 0, 0)" and fuel=0 and p=uio0]
    by (simp add: to_int_def init_locals_def num_arg_def sim_world_def)
  then have "reg_lines (fst (main 0 (sim_world True (0, 0, 0, 0)) [Opt_n 2 False] [uio0, num_arg ''8'' 8]))
     = [(8, 0), (12, 0)]"
    by (simp add: to_int_def num_arg_def sim_world_def load32_def upt_rec numeral_2_eq_2)
  moreover have "reg_line_text 12 0 = ''0x0000000c'' @ [CHR 0x09] @ ''00000000'' @ [CHR 0x0A]"
    by (simp add: reg_line_text_def fmt_08x_def hex_digit_def drop_bit_eq_div)
  ultimately show ?thesis
    by (simp add: to_int_def init_locals_def num_arg_def sim_world_def in_map_def)
qed

subsection \<open>Addresses beyond the mapped length\<close>

lemma fmt_08x_example: "fmt_08x 0xdeadbeef = ''deadbeef''"
  by (simp add: fmt_08x_def hex_digit_def drop_bit_eq_div)

lemma read_words_quiet: "filter is_complaint (fst (read_words mp m sl c addr wd)) = []"
proof (induction mp m sl c addr wd rule: read_words.induct)
  case (1 mp m sl count addr width)
  show ?case
  proof (cases "0 <s count")
    case False
    then show ?thesis by (simp add: read_words_stop)
  next
    case True
    show ?thesis
    proof (cases "load_word mp m sl addr")
      case None
      then show ?thesis
        using True by (simp add: read_words_fault)
    next
      case (Some x)
      then show ?thesis
        using True "1.IH" [OF True Some] by (simp add: read_words_found)
    qed
  qed
qed

lemma read_words_first:
  "0 <s c \<Longrightarrow> take 1 (fst (read_words mp m sl c addr wd)) = [Load addr]"
  by (cases "load_word mp m sl addr") (simp_all add: read_words_fault read_words_found)

text \<open>
  C6, as amended. The program compares no address with the mapped length and reports no
  error for an address. Once the device file is open, read mode with a count of at least 1
  makes the load at the requested address, and write mode the store. A word within the
  bytes that are mapped is read and printed, or written, even when address + 4 * count
  exceeds the length \<open>count * 4\<close> asked of \<^verbatim>\<open>mmap\<close>. For a word outside them the access is made
  all the same and finds what the address space of the process holds there: the load
  faults, or its word is printed; the store faults, or goes through. No run of either mode
  reports an error or returns \<^verbatim>\<open>EXIT_FAILURE\<close>: it ends with \<^verbatim>\<open>EXIT_SUCCESS\<close> or by the fault.
\<close>

theorem access_is_unchecked:
  assumes "getopt_loop opts init_locals = Inr s" and "mode s = MODE_READ"
    and "\<not> erange a" and "\<not> erange v" and "1 \<le> open_ret w"
  shows "(0 <s count s \<longrightarrow>
            take 3 (fst (main fuel w opts [p, a])) =
              [Open (str p) True, Mmap (count s * 4) (open_ret w), Load (to_int (ul a))]) \<and>
         (0 <s count s \<longrightarrow> in_map (mmap_ret w) (to_int (ul a)) \<longrightarrow>
            take 4 (fst (main fuel w opts [p, a])) =
              [Open (str p) True, Mmap (count s * 4) (open_ret w), Load (to_int (ul a)),
               Print_reg (to_int (ul a)) (load32 (mem w) (nat (sint (to_int (ul a)))))]) \<and>
         (0 <s count s \<longrightarrow> \<not> in_map (mmap_ret w) (to_int (ul a)) \<longrightarrow>
            stray_load w (to_int (ul a)) = None \<longrightarrow>
            main fuel w opts [p, a] =
              ([Open (str p) True, Mmap (count s * 4) (open_ret w), Load (to_int (ul a))],
               Fault)) \<and>
         (0 <s count s \<longrightarrow> \<not> in_map (mmap_ret w) (to_int (ul a)) \<longrightarrow>
            stray_load w (to_int (ul a)) = Some x \<longrightarrow>
            take 4 (fst (main fuel w opts [p, a])) =
              [Open (str p) True, Mmap (count s * 4) (open_ret w), Load (to_int (ul a)),
               Print_reg (to_int (ul a)) x]) \<and>
         (snd (main fuel w opts [p, a]) = Exit EXIT_SUCCESS \<or>
          snd (main fuel w opts [p, a]) = Fault) \<and>
         filter is_complaint (fst (main fuel w opts [p, a])) = [] \<and>
         main fuel w opts [p, a, v] =
           (if in_map (mmap_ret w) (to_int (ul a)) \<or> stray_store w (to_int (ul a))
            then ([Open (str p) True, Mmap (count s * 4) (open_ret w),
                   Store (to_int (ul a)) (to_int (ul v)), Munmap (count s * 4),
                   Close (open_ret w)],
                  Exit EXIT_SUCCESS)
            else ([Open (str p) True, Mmap (count s * 4) (open_ret w),
                   Store (to_int (ul a)) (to_int (ul v))],
                  Fault))"
proof -
  have wd: "width s = 4"
    using getopt_width [OF assms(1) init_width] .
  define rw where "rw = read_words (mmap_ret w) (mem w) (stray_load w) (count s) (to_int (ul a)) 4"
  have run: "main fuel w opts [p, a] =
      (if snd rw then (Open (str p) True # Mmap (count s * 4) (open_ret w) # fst rw, Fault)
       else (Open (str p) True # Mmap (count s * 4) (open_ret w) # fst rw
               @ [Munmap (count s * 4), Close (open_ret w)],
             Exit EXIT_SUCCESS))"
    using assms wd by (simp add: main_def map_and_access_def Let_def case_prod_beta rw_def)
  have first: "take 1 (fst rw) = [Load (to_int (ul a))]" if "0 <s count s"
    unfolding rw_def using that by (rule read_words_first)
  have c1: "take 3 (fst (main fuel w opts [p, a])) =
              [Open (str p) True, Mmap (count s * 4) (open_ret w), Load (to_int (ul a))]"
    if "0 <s count s"
    using first [OF that] by (cases "fst rw") (simp_all add: run)
  have found: "take 4 (fst (main fuel w opts [p, a])) =
              [Open (str p) True, Mmap (count s * 4) (open_ret w), Load (to_int (ul a)),
               Print_reg (to_int (ul a)) y]"
    if "0 <s count s" and "load_word (mmap_ret w) (mem w) (stray_load w) (to_int (ul a)) = Some y"
    for y
    using read_words_found [OF that, of 4] by (simp add: run rw_def)
  have c2: "take 4 (fst (main fuel w opts [p, a])) =
              [Open (str p) True, Mmap (count s * 4) (open_ret w), Load (to_int (ul a)),
               Print_reg (to_int (ul a)) (load32 (mem w) (nat (sint (to_int (ul a)))))]"
    if "0 <s count s" and "in_map (mmap_ret w) (to_int (ul a))"
    using that by (intro found) (simp_all add: load_word_def)
  have c3: "main fuel w opts [p, a] =
              ([Open (str p) True, Mmap (count s * 4) (open_ret w), Load (to_int (ul a))],
               Fault)"
    if "0 <s count s" and "\<not> in_map (mmap_ret w) (to_int (ul a))"
      and "stray_load w (to_int (ul a)) = None"
    using that by (simp add: run rw_def read_words_fault load_word_def)
  have c4: "take 4 (fst (main fuel w opts [p, a])) =
              [Open (str p) True, Mmap (count s * 4) (open_ret w), Load (to_int (ul a)),
               Print_reg (to_int (ul a)) x]"
    if "0 <s count s" and "\<not> in_map (mmap_ret w) (to_int (ul a))"
      and "stray_load w (to_int (ul a)) = Some x"
    using that by (intro found) (simp_all add: load_word_def)
  have c5: "snd (main fuel w opts [p, a]) = Exit EXIT_SUCCESS \<or>
          snd (main fuel w opts [p, a]) = Fault"
    by (simp add: run)
  have c6: "filter is_complaint (fst (main fuel w opts [p, a])) = []"
    using read_words_quiet [of "mmap_ret w" "mem w" "stray_load w" "count s" "to_int (ul a)" 4]
    by (simp add: run rw_def)
  have c7: "main fuel w opts [p, a, v] =
           (if in_map (mmap_ret w) (to_int (ul a)) \<or> stray_store w (to_int (ul a))
            then ([Open (str p) True, Mmap (count s * 4) (open_ret w),
                   Store (to_int (ul a)) (to_int (ul v)), Munmap (count s * 4),
                   Close (open_ret w)],
                  Exit EXIT_SUCCESS)
            else ([Open (str p) True, Mmap (count s * 4) (open_ret w),
                   Store (to_int (ul a)) (to_int (ul v))],
                  Fault))"
    using assms wd by (simp add: main_def map_and_access_def Let_def write_word_def)
  show ?thesis
    using c1 c2 c3 c4 c5 c6 c7 by blast
qed

text \<open>
  Three runs. On the simulated host one page is mapped: \<^verbatim>\<open>uioctl /dev/uio0 0x1000\<close> loads
  beyond it and faults, and \<^verbatim>\<open>uioctl /dev/uio0 4 1\<close> stores at 4 although the length asked of
  \<^verbatim>\<open>mmap\<close> is 4. On the host where the mapping fails, \<^verbatim>\<open>uioctl /dev/uio0 0x400001\<close> loads
  through \<^verbatim>\<open>MAP_FAILED\<close>, finds the ELF header and prints it.
\<close>

theorem access_is_unchecked_witness:
  "getopt_loop [] init_locals = Inr init_locals \<and> 0 <s count init_locals \<and>
   \<not> in_map (mmap_ret (sim_world True (0, 0, 0, 0))) (to_int (ul (num_arg ''0x1000'' 4096))) \<and>
   stray_load (sim_world True (0, 0, 0, 0)) (to_int (ul (num_arg ''0x1000'' 4096))) = None \<and>
   main 0 (sim_world True (0, 0, 0, 0)) [] [uio0, num_arg ''0x1000'' 4096] =
     ([Open ''/dev/uio0'' True, Mmap 4 3, Load 4096], Fault) \<and>
   in_map (mmap_ret (sim_world True (0, 0, 0, 0))) (to_int (ul (num_arg ''4'' 4))) \<and>
   main 0 (sim_world True (0, 0, 0, 0)) [] [uio0, num_arg ''4'' 4, num_arg ''1'' 1] =
     ([Open ''/dev/uio0'' True, Mmap 4 3, Store 4 1, Munmap 4, Close 3], Exit EXIT_SUCCESS) \<and>
   \<not> in_map (mmap_ret elf_world) (to_int (ul (num_arg ''0x400001'' 4194305))) \<and>
   stray_load elf_world (to_int (ul (num_arg ''0x400001'' 4194305))) = Some 0x464c457f \<and>
   take 4 (fst (main 0 elf_world [] [uio0, num_arg ''0x400001'' 4194305])) =
     [Open ''/dev/uio0'' True, Mmap 4 3, Load 0x400001, Print_reg 0x400001 0x464c457f]"
  using access_is_unchecked [where opts="[]" and s=init_locals and a="num_arg ''0x1000'' 4096"
      and v="num_arg ''1'' 1" and w="sim_world True (0, 0, 0, 0)" and fuel=0 and p=uio0]
    access_is_unchecked [where opts="[]" and s=init_locals and a="num_arg ''4'' 4"
      and v="num_arg ''1'' 1" and w="sim_world True (0, 0, 0, 0)" and fuel=0 and p=uio0]
    access_is_unchecked [where opts="[]" and s=init_locals and a="num_arg ''0x400001'' 4194305"
      and v="num_arg ''1'' 1" and w=elf_world and fuel=0 and p=uio0 and x="0x464c457f"]
  by (simp add: to_int_def init_locals_def num_arg_def sim_world_def elf_world_def uio0_def
      in_map_def word_sless_alt DEFAULT_WIDTH_def)

text \<open>
  C6 as stated fails: \<^verbatim>\<open>uioctl /dev/uio0 4\<close> maps \<open>count * width = 4\<close> bytes and reads one word
  at address 4, so address + 4 * count is 8; the load is made, the line is printed and the
  status is \<^verbatim>\<open>EXIT_SUCCESS\<close>.
\<close>

theorem no_bounds_check_counterexample:
  "count init_locals * width init_locals = 4 \<and>
   main 0 (sim_world True (0, 0, 0, 0)) [] [uio0, num_arg ''4'' 4] =
     ([Open ''/dev/uio0'' True, Mmap 4 3, Load 4, Print_reg 4 0, Munmap 4, Close 3],
      Exit EXIT_SUCCESS)"
proof -
  have one: "0 <s (1::cint)"
    by (simp add: word_sless_alt)
  have zero: "\<not> 0 <s (0 :: cint)"
    by simp
  have "in_map (Some 4096) 4"
    by (simp add: in_map_def)
  then have "read_words (Some 4096) (\<lambda>a. 0) (\<lambda>a. None) 1 4 4 = ([Load 4, Print_reg 4 0], False)"
    by (simp add: read_words_step [OF one] read_words_stop [OF zero] load32_def)
  then show ?thesis
    by (simp add: main_def map_and_access_def Let_def init_locals_def DEFAULT_WIDTH_def
      sim_world_def uio0_def num_arg_def to_int_def)
qed

end
